theory Spec2Isabelle
  imports Complex_Main "HOL-Library.Signed_Division"
begin

section \<open>Constants and data model\<close>

text \<open>
  The C++ sources keep the map and the exploration state in global arrays
  \<^verbatim>\<open>int gameMap[MAP_HEIGHT][MAP_WIDTH]\<close>, \<^verbatim>\<open>bool visitedCells[MAP_HEIGHT][MAP_WIDTH]\<close>
  and the counter \<^verbatim>\<open>int distinctVisited\<close>. An array is modelled as a function from the
  row index to the column index to the value, so \<open>g y x\<close> stands for \<^verbatim>\<open>gameMap[y][x]\<close>.
  Cell kinds are the integers of the source: 0 = empty, 1 = wall, 2 = finish.
  A \<^verbatim>\<open>double\<close> is modelled as a real number. An \<^verbatim>\<open>int\<close> is a mathematical integer: the
  indices and counts of the maze generator and the tracker stay far below the 32-bit
  range, and the casts of the tracker and the resolver are plain truncations. In the
  renderer, where a map coordinate comes from an arbitrary player position and is stepped
  in a loop, the cast and the additions are checked against the range of a 32-bit \<^verbatim>\<open>int\<close>.
\<close>

definition MAP_WIDTH :: int where
  "MAP_WIDTH = 250"

definition MAP_HEIGHT :: int where
  "MAP_HEIGHT = 250"

type_synonym grid = "int \<Rightarrow> int \<Rightarrow> int"

text \<open>The assignment \<^verbatim>\<open>a[y][x] = v\<close>.\<close>

definition setCell :: "(int \<Rightarrow> int \<Rightarrow> 'a) \<Rightarrow> int \<Rightarrow> int \<Rightarrow> 'a \<Rightarrow> (int \<Rightarrow> int \<Rightarrow> 'a)" where
  "setCell a x y v = a(y := (a y)(x := v))"

text \<open>\<^verbatim>\<open>static_cast<int>(d)\<close> truncates towards zero.\<close>

definition static_cast_int :: "real \<Rightarrow> int" where
  "static_cast_int d = (if d < 0 then \<lceil>d\<rceil> else \<lfloor>d\<rfloor>)"

text \<open>The accessor \<^verbatim>\<open>getCell\<close>: every coordinate outside the array reads as a wall.\<close>

definition getCell :: "grid \<Rightarrow> int \<Rightarrow> int \<Rightarrow> int" where
  "getCell g x y = (if x < 0 \<or> x \<ge> MAP_WIDTH \<or> y < 0 \<or> y \<ge> MAP_HEIGHT then 1 else g y x)"

definition inBounds :: "int \<Rightarrow> int \<Rightarrow> bool" where
  "inBounds x y = (0 \<le> x \<and> x < MAP_WIDTH \<and> 0 \<le> y \<and> y < MAP_HEIGHT)"

section \<open>Exploration tracking\<close>

record tracker =
  visitedCells :: "int \<Rightarrow> int \<Rightarrow> bool"
  distinctVisited :: int


text \<open>\<^verbatim>\<open>updateVisited\<close> of \<^verbatim>\<open>raycast_maze.cpp\<close> and \<^verbatim>\<open>raycast_maze-all-sdl2-only.cpp\<close>.\<close>

definition updateVisited :: "tracker \<Rightarrow> real \<Rightarrow> real \<Rightarrow> tracker" where
  "updateVisited t posX posY =
     (let cellX = static_cast_int posX;
          cellY = static_cast_int posY
      in if cellX \<ge> 0 \<and> cellX < MAP_WIDTH \<and> cellY \<ge> 0 \<and> cellY < MAP_HEIGHT \<and>
            \<not> visitedCells t cellY cellX
         then t\<lparr>visitedCells := setCell (visitedCells t) cellX cellY True,
                distinctVisited := distinctVisited t + 1\<rparr>
         else t)"

text \<open>
  \<^verbatim>\<open>updateVisited\<close> of \<^verbatim>\<open>raycast_maze-v1.cpp\<close> has no bounds test: it indexes the array
  with whatever the casts give. Indexing a C++ array outside its bounds is undefined
  behaviour, which the model returns as an error value.
\<close>

datatype error = OutOfBounds | DivisionByZero | CastOutOfRange | IntOverflow

definition updateVisited_v1 :: "tracker \<Rightarrow> real \<Rightarrow> real \<Rightarrow> error + tracker" where
  "updateVisited_v1 t posX posY =
     (let cellX = static_cast_int posX;
          cellY = static_cast_int posY
      in if \<not> inBounds cellX cellY then Inl OutOfBounds
         else if \<not> visitedCells t cellY cellX
         then Inr (t\<lparr>visitedCells := setCell (visitedCells t) cellX cellY True,
                     distinctVisited := distinctVisited t + 1\<rparr>)
         else Inr t)"





section \<open>Maze generation\<close>

text \<open>
  Each of \<^verbatim>\<open>generateMaze\<close> and \<^verbatim>\<open>placeRandomFinish\<close> seeds a \<^verbatim>\<open>std::mt19937\<close> of its own
  from \<^verbatim>\<open>std::random_device\<close>. A generator is modelled as an arbitrary infinite
  sequence of naturals together with the number of values already taken. A draw from
  \<^verbatim>\<open>std::uniform_int_distribution<>(lo, hi)\<close> takes the next value \<open>r\<close> and returns
  \<open>lo + r mod (hi - lo + 1)\<close>: every value of the closed range can be drawn, and nothing else.
\<close>

type_synonym rng = "nat \<Rightarrow> nat"

definition uniform_int :: "rng \<Rightarrow> nat \<Rightarrow> int \<Rightarrow> int \<Rightarrow> int" where
  "uniform_int gen k lo hi = lo + int (gen k mod nat (hi - lo + 1))"

text \<open>The first pair of loops of \<^verbatim>\<open>generateMaze\<close>: every cell becomes a wall.\<close>

definition fillWalls :: "grid \<Rightarrow> grid" where
  "fillWalls g =
     fold (\<lambda>y g. fold (\<lambda>x g. setCell g x y 1) [0..MAP_WIDTH - 1] g) [0..MAP_HEIGHT - 1] g"

definition directions :: "(int \<times> int) list" where
  "directions = [(0, -2), (0, 2), (-2, 0), (2, 0)]"

text \<open>The inner \<^verbatim>\<open>for\<close> loop of an iteration: the uncarved lattice neighbours of the top cell.\<close>

definition neighbors :: "grid \<Rightarrow> int \<Rightarrow> int \<Rightarrow> (int \<times> int) list" where
  "neighbors g cx cy =
     filter (\<lambda>n. fst n > 0 \<and> fst n < MAP_WIDTH - 1 \<and> snd n > 0 \<and> snd n < MAP_HEIGHT - 1 \<and>
                  g (snd n) (fst n) = 1)
       (map (\<lambda>d. (cx + fst d, cy + snd d)) directions)"

text \<open>
  One iteration of the \<^verbatim>\<open>while (!stack.empty())\<close> loop on a non-empty stack whose top is
  \<open>(cx, cy)\<close>. The stack is a list with its top at the head. The division by 2 is the
  truncating division of C++.
\<close>

definition carveStep ::
  "grid \<Rightarrow> int \<times> int \<Rightarrow> (int \<times> int) list \<Rightarrow> rng \<Rightarrow> nat \<Rightarrow> grid \<times> (int \<times> int) list \<times> nat" where
  "carveStep g c rest gen k =
     (let cx = fst c; cy = snd c;
          ns = neighbors g cx cy
      in if ns \<noteq> [] then
           (let n = ns ! nat (uniform_int gen k 0 (int (length ns) - 1));
                nx = fst n; ny = snd n;
                wallX = cx + (nx - cx) sdiv 2;
                wallY = cy + (ny - cy) sdiv 2;
                g1 = setCell g wallX wallY 0;
                g2 = setCell g1 nx ny 0
            in (g2, (nx, ny) # c # rest, Suc k))
         else (g, rest, k))"

partial_function (option) carveLoop :: "grid \<Rightarrow> (int \<times> int) list \<Rightarrow> rng \<Rightarrow> nat \<Rightarrow> grid option" where
  "carveLoop g stack gen k =
     (case stack of
        [] \<Rightarrow> Some g
      | c # rest \<Rightarrow>
          (case carveStep g c rest gen k of (g', stack', k') \<Rightarrow> carveLoop g' stack' gen k'))"

text \<open>The two loops after the carving: every cell of the outer ring becomes a wall again.\<close>

definition forceBorders :: "grid \<Rightarrow> grid" where
  "forceBorders g =
     (let g1 = fold (\<lambda>y g. setCell (setCell g 0 y 1) (MAP_WIDTH - 1) y 1) [0..MAP_HEIGHT - 1] g
      in fold (\<lambda>x g. setCell (setCell g x 0 1) x (MAP_HEIGHT - 1) 1) [0..MAP_WIDTH - 1] g1)"

text \<open>\<^verbatim>\<open>placeRandomFinish\<close>: border 0 = top, 1 = bottom, 2 = left, otherwise right.\<close>

definition placeRandomFinish :: "grid \<Rightarrow> rng \<Rightarrow> grid" where
  "placeRandomFinish g gen =
     (let border = uniform_int gen 0 0 3
      in if border = 0 then
           (let fY = 0; fX = uniform_int gen 1 1 (MAP_WIDTH - 2)
            in setCell (setCell g fX (fY + 1) 0) fX fY 2)
         else if border = 1 then
           (let fY = MAP_HEIGHT - 1; fX = uniform_int gen 1 1 (MAP_WIDTH - 2)
            in setCell (setCell g fX (fY - 1) 0) fX fY 2)
         else if border = 2 then
           (let fX = 0; fY = uniform_int gen 1 1 (MAP_HEIGHT - 2)
            in setCell (setCell g (fX + 1) fY 0) fX fY 2)
         else
           (let fX = MAP_WIDTH - 1; fY = uniform_int gen 1 1 (MAP_HEIGHT - 2)
            in setCell (setCell g (fX - 1) fY 0) fX fY 2))"

text \<open>
  \<^verbatim>\<open>generateMaze\<close> of \<^verbatim>\<open>raycast_maze.cpp\<close>. The flag \<open>finish\<close> is the preprocessor condition
  \<^verbatim>\<open>!defined(USE_THRESHOLD) || defined(USE_FINISH) || defined(USE_BOTH)\<close>; \<open>g0\<close> is the
  content of the global array before the call, \<open>gen\<close> the generator of the carving loop and
  \<open>genF\<close> the generator of \<^verbatim>\<open>placeRandomFinish\<close>.
\<close>

definition generateMaze :: "bool \<Rightarrow> grid \<Rightarrow> rng \<Rightarrow> rng \<Rightarrow> grid option" where
  "generateMaze finish g0 gen genF =
     (case carveLoop (setCell (fillWalls g0) 1 1 0) [(1, 1)] gen 0 of
        None \<Rightarrow> None
      | Some g \<Rightarrow>
          (let gb = forceBorders g
           in Some (if finish then placeRandomFinish gb genF else gb)))"

text \<open>
  \<^verbatim>\<open>generateMaze\<close> of \<^verbatim>\<open>raycast_maze-v1.cpp\<close>: the same fill, carving loop (the neighbours are
  kept in an array of four with a counter) and border loops, and then the fixed cell
  \<^verbatim>\<open>(finishX, finishY)\<close> is marked as the finish.
\<close>

definition finishX :: int where
  "finishX = MAP_WIDTH - 3"

definition finishY :: int where
  "finishY = MAP_HEIGHT - 3"

definition generateMaze_v1 :: "grid \<Rightarrow> rng \<Rightarrow> grid option" where
  "generateMaze_v1 g0 gen =
     (case carveLoop (setCell (fillWalls g0) 1 1 0) [(1, 1)] gen 0 of
        None \<Rightarrow> None
      | Some g \<Rightarrow> Some (setCell (forceBorders g) finishX finishY 2))"

text \<open>
  The flood fill of the connectivity property is a notion of the specification; the
  sources have no such function. \<open>flood g x y\<close> holds for the cells that a four-neighbour
  flood fill over empty cells, read through \<^verbatim>\<open>getCell\<close>, reaches from the start cell (1, 1).
\<close>

inductive flood :: "grid \<Rightarrow> int \<Rightarrow> int \<Rightarrow> bool" for g :: grid where
  flood_start: "getCell g 1 1 = 0 \<Longrightarrow> flood g 1 1"
| flood_step: "flood g x y \<Longrightarrow> \<bar>x' - x\<bar> + \<bar>y' - y\<bar> = 1 \<Longrightarrow> getCell g x' y' = 0 \<Longrightarrow> flood g x' y'"

text \<open>
  Notions of the specification: the cells of the outer ring, the grid cell immediately
  inside a border cell, and the passable cells of a grid.
\<close>

definition onBorder :: "int \<Rightarrow> int \<Rightarrow> bool" where
  "onBorder x y = (inBounds x y \<and> (x = 0 \<or> x = MAP_WIDTH - 1 \<or> y = 0 \<or> y = MAP_HEIGHT - 1))"

definition insideOf :: "int \<Rightarrow> int \<Rightarrow> int \<times> int" where
  "insideOf x y =
     (if y = 0 then (x, 1)
      else if y = MAP_HEIGHT - 1 then (x, MAP_HEIGHT - 2)
      else if x = 0 then (1, y)
      else (MAP_WIDTH - 2, y))"


section \<open>Collision resolution\<close>

text \<open>\<^verbatim>\<open>std::floor\<close> and \<^verbatim>\<open>std::ceil\<close> return a \<^verbatim>\<open>double\<close>.\<close>

definition std_floor :: "real \<Rightarrow> real" where
  "std_floor d = of_int \<lfloor>d\<rfloor>"

definition std_ceil :: "real \<Rightarrow> real" where
  "std_ceil d = of_int \<lceil>d\<rceil>"

text \<open>
  A division whose divisor is zero is made visible as an error value, so that a theorem
  can say that the resolver never divides by zero.
\<close>

definition divide_checked :: "real \<Rightarrow> real \<Rightarrow> error + real" where
  "divide_checked a b = (if b = 0 then Inl DivisionByZero else Inr (a / b))"

text \<open>
  The body of the two nested loops of \<^verbatim>\<open>resolveCircleCollision\<close> for a cell \<open>(cx, cy)\<close> that
  passed the obstacle test; \<open>p\<close> is the current value of \<^verbatim>\<open>(posX, posY)\<close>. The three source
  files agree on this body.
\<close>

definition pushOut :: "real \<Rightarrow> int \<Rightarrow> int \<Rightarrow> real \<times> real \<Rightarrow> error + real \<times> real" where
  "pushOut hitbox cx cy p =
     (let posX = fst p; posY = snd p;
          closestX = max (of_int cx) (min posX (of_int (cx + 1)));
          closestY = max (of_int cy) (min posY (of_int (cy + 1)));
          distX = posX - closestX;
          distY = posY - closestY;
          distSq = distX * distX + distY * distY
      in if distSq < hitbox * hitbox then
           (let dist = sqrt distSq;
                pen = hitbox - dist
            in if dist = 0 then Inr (posX, posY - pen)
               else
                 (case divide_checked distX dist of
                    Inl e \<Rightarrow> Inl e
                  | Inr ux \<Rightarrow>
                      (case divide_checked distY dist of
                         Inl e \<Rightarrow> Inl e
                       | Inr uy \<Rightarrow> Inr (posX + ux * pen, posY + uy * pen))))
         else Inr p)"

text \<open>A \<^verbatim>\<open>for\<close> loop over a list of indices that threads a state and stops at an error.\<close>

fun forEach :: "('a \<Rightarrow> 's \<Rightarrow> error + 's) \<Rightarrow> 'a list \<Rightarrow> 's \<Rightarrow> error + 's" where
  "forEach f [] s = Inr s"
| "forEach f (x # xs) s = (case f x s of Inl e \<Rightarrow> Inl e | Inr s' \<Rightarrow> forEach f xs s')"

text \<open>
  \<^verbatim>\<open>resolveCircleCollision\<close> of \<^verbatim>\<open>raycast_maze.cpp\<close> and \<^verbatim>\<open>raycast_maze-all-sdl2-only.cpp\<close>:
  the obstacle test is \<^verbatim>\<open>getCell(cx, cy) == 1\<close>. The scan range is computed once, from the
  position the function is called with.
\<close>

definition resolveCircleCollision :: "grid \<Rightarrow> real \<times> real \<Rightarrow> real \<Rightarrow> error + real \<times> real" where
  "resolveCircleCollision g p hitbox =
     (let posX = fst p; posY = snd p;
          startX = max 0 (static_cast_int (std_floor (posX - hitbox)));
          endX = min (MAP_WIDTH - 1) (static_cast_int (std_ceil (posX + hitbox)));
          startY = max 0 (static_cast_int (std_floor (posY - hitbox)));
          endY = min (MAP_HEIGHT - 1) (static_cast_int (std_ceil (posY + hitbox)))
      in forEach
           (\<lambda>cy. forEach (\<lambda>cx q. if getCell g cx cy = 1 then pushOut hitbox cx cy q else Inr q)
                    [startX..endX])
           [startY..endY] p)"

text \<open>
  \<^verbatim>\<open>resolveCircleCollision\<close> of \<^verbatim>\<open>raycast_maze-v1.cpp\<close>: the obstacle test is
  \<^verbatim>\<open>getCell(cx, cy) != 0\<close>.
\<close>

definition resolveCircleCollision_v1 :: "grid \<Rightarrow> real \<times> real \<Rightarrow> real \<Rightarrow> error + real \<times> real" where
  "resolveCircleCollision_v1 g p hitbox =
     (let posX = fst p; posY = snd p;
          startX = max 0 (static_cast_int (std_floor (posX - hitbox)));
          endX = min (MAP_WIDTH - 1) (static_cast_int (std_ceil (posX + hitbox)));
          startY = max 0 (static_cast_int (std_floor (posY - hitbox)));
          endY = min (MAP_HEIGHT - 1) (static_cast_int (std_ceil (posY + hitbox)))
      in forEach
           (\<lambda>cy. forEach (\<lambda>cx q. if getCell g cx cy \<noteq> 0 then pushOut hitbox cx cy q else Inr q)
                    [startX..endX])
           [startY..endY] p)"

text \<open>
  The geometry the collision contract speaks of, with the arithmetic of the loop body:
  the point of the unit square of the cell \<open>(cx, cy)\<close> closest to \<open>p\<close>, its distance from
  \<open>p\<close>, and the circle of radius \<open>r\<close> around \<open>p\<close> overlapping the cell, which means that
  the closest point is closer than \<open>r\<close>.
\<close>

definition closestPoint :: "real \<times> real \<Rightarrow> int \<Rightarrow> int \<Rightarrow> real \<times> real" where
  "closestPoint p cx cy =
     (max (of_int cx) (min (fst p) (of_int (cx + 1))),
      max (of_int cy) (min (snd p) (of_int (cy + 1))))"


definition overlapsCell :: "real \<times> real \<Rightarrow> real \<Rightarrow> int \<Rightarrow> int \<Rightarrow> bool" where
  "overlapsCell p r cx cy =
     ((fst p - fst (closestPoint p cx cy))\<^sup>2 + (snd p - snd (closestPoint p cx cy))\<^sup>2 < r\<^sup>2)"

section \<open>Ray casting\<close>

text \<open>
  The renderer is modelled with the 32-bit \<^verbatim>\<open>int\<close> of the source. A cast of a
  \<^verbatim>\<open>double\<close> whose truncation does not fit, and an addition whose sum does not fit, are
  undefined behaviour in C++; the model returns them as error values.
\<close>

definition INT_MAX :: int where
  "INT_MAX = 2147483647"

definition INT_MIN :: int where
  "INT_MIN = - 2147483648"

definition static_cast_int_checked :: "real \<Rightarrow> error + int" where
  "static_cast_int_checked d =
     (if INT_MIN \<le> static_cast_int d \<and> static_cast_int d \<le> INT_MAX
      then Inr (static_cast_int d) else Inl CastOutOfRange)"

definition int_add :: "int \<Rightarrow> int \<Rightarrow> error + int" where
  "int_add a b = (if INT_MIN \<le> a + b \<and> a + b \<le> INT_MAX then Inr (a + b) else Inl IntOverflow)"

text \<open>
  A quotient of two \<^verbatim>\<open>double\<close>s is a number, or, when the divisor is zero, an infinity or
  (for 0 / 0) not a number; dividing by zero is no error in floating point.
\<close>

datatype double = Finite real | Infinity | NaN

definition double_divide :: "real \<Rightarrow> real \<Rightarrow> double" where
  "double_divide a b = (if b \<noteq> 0 then Finite (a / b) else if a = 0 then NaN else Infinity)"

text \<open>The variables the marching loop of a screen column updates.\<close>

record dda =
  mapX :: int
  mapY :: int
  sideDistX :: real
  sideDistY :: real
  side :: int

text \<open>The \<^verbatim>\<open>if\<close>/\<^verbatim>\<open>else\<close> at the head of the loop body.\<close>

definition ddaStep :: "real \<Rightarrow> real \<Rightarrow> int \<Rightarrow> int \<Rightarrow> dda \<Rightarrow> error + dda" where
  "ddaStep deltaDistX deltaDistY stepX stepY s =
     (if sideDistX s < sideDistY s
      then (case int_add (mapX s) stepX of
              Inl e \<Rightarrow> Inl e
            | Inr m \<Rightarrow> Inr (s\<lparr>sideDistX := sideDistX s + deltaDistX, mapX := m, side := 0\<rparr>))
      else (case int_add (mapY s) stepY of
              Inl e \<Rightarrow> Inl e
            | Inr m \<Rightarrow> Inr (s\<lparr>sideDistY := sideDistY s + deltaDistY, mapY := m, side := 1\<rparr>)))"

text \<open>
  \<^verbatim>\<open>while (!hit)\<close>: the flag is 0 on entry, so the body runs, and the loop goes on until
  the cell stepped into is not empty. A march that never stops has the value \<open>None\<close>; a
  march that overflows stops with the error.
\<close>

partial_function (option) ddaMarch ::
  "grid \<Rightarrow> real \<Rightarrow> real \<Rightarrow> int \<Rightarrow> int \<Rightarrow> dda \<Rightarrow> (error + dda) option" where
  "ddaMarch g deltaDistX deltaDistY stepX stepY s =
     (case ddaStep deltaDistX deltaDistY stepX stepY s of
        Inl e \<Rightarrow> Some (Inl e)
      | Inr s' \<Rightarrow>
          if getCell g (mapX s') (mapY s') > 0 then Some (Inr s')
          else ddaMarch g deltaDistX deltaDistY stepX stepY s')"

record rayHit =
  hitMapX :: int
  hitMapY :: int
  hitSide :: int
  perpWallDist :: double

text \<open>
  The body of the raycasting loop for the screen column \<open>x\<close>, from the camera offset
  (line 522 of \<^verbatim>\<open>raycast_maze.cpp\<close>) to the perpendicular wall distance (line 549).
\<close>

definition castRay ::
  "grid \<Rightarrow> real \<Rightarrow> real \<Rightarrow> real \<Rightarrow> real \<Rightarrow> real \<Rightarrow> real \<Rightarrow> int \<Rightarrow> int \<Rightarrow> (error + rayHit) option" where
  "castRay g posX_player posY_player dirX dirY planeX planeY screenWidth x =
     (let cameraX = 2 * of_int x / of_int screenWidth - 1;
          rayDirX = dirX + planeX * cameraX;
          rayDirY = dirY + planeY * cameraX
      in case static_cast_int_checked posX_player of
           Inl e \<Rightarrow> Some (Inl e)
         | Inr mapX0 \<Rightarrow>
        (case static_cast_int_checked posY_player of
           Inl e \<Rightarrow> Some (Inl e)
         | Inr mapY0 \<Rightarrow>
        (let deltaDistX = (if rayDirX = 0 then 10 ^ 30 else \<bar>1 / rayDirX\<bar>);
             deltaDistY = (if rayDirY = 0 then 10 ^ 30 else \<bar>1 / rayDirY\<bar>);
             stepX = (if rayDirX < 0 then - 1 else 1);
             stepY = (if rayDirY < 0 then - 1 else 1);
             sideDistX0 = (if rayDirX < 0 then (posX_player - of_int mapX0) * deltaDistX
                           else (of_int mapX0 + 1 - posX_player) * deltaDistX);
             sideDistY0 = (if rayDirY < 0 then (posY_player - of_int mapY0) * deltaDistY
                           else (of_int mapY0 + 1 - posY_player) * deltaDistY)
         in case ddaMarch g deltaDistX deltaDistY stepX stepY
                   \<lparr>mapX = mapX0, mapY = mapY0, sideDistX = sideDistX0,
                    sideDistY = sideDistY0, side = 0\<rparr> of
              None \<Rightarrow> None
            | Some (Inl e) \<Rightarrow> Some (Inl e)
            | Some (Inr s) \<Rightarrow>
                Some (Inr \<lparr>hitMapX = mapX s, hitMapY = mapY s, hitSide = side s,
                   perpWallDist =
                     (if side s = 0
                      then double_divide
                             (of_int (mapX s) - posX_player + of_int (1 - stepX) / 2) rayDirX
                      else double_divide
                             (of_int (mapY s) - posY_player + of_int (1 - stepY) / 2) rayDirY)\<rparr>))))"

text \<open>
  Line 550, \<^verbatim>\<open>int lineHeight = static_cast<int>(screenHeight / perpWallDist)\<close>: the quotient
  of the screen height by a zero distance is an infinity (or not a number, for a screen of
  height 0), by an infinite distance it is 0.
\<close>

definition lineHeight :: "int \<Rightarrow> double \<Rightarrow> error + int" where
  "lineHeight screenHeight perp =
     (case perp of
        Finite p \<Rightarrow>
          (case double_divide (of_int screenHeight) p of
             Finite q \<Rightarrow> static_cast_int_checked q
           | Infinity \<Rightarrow> Inl CastOutOfRange
           | NaN \<Rightarrow> Inl CastOutOfRange)
      | Infinity \<Rightarrow> Inr 0
      | NaN \<Rightarrow> Inl CastOutOfRange)"

text \<open>
  The grid of the raycasting scenario: the centre cell (1, 1) is empty and every other
  cell is a wall, so the 3 by 3 block at the origin has a wall border and an empty interior.
\<close>

definition grid3 :: grid where
  "grid3 = (\<lambda>y x. if x = 1 \<and> y = 1 then 0 else 1)"

section \<open>Auxiliary notions of the proofs\<close>


text \<open>The wall cells of the array; their number is what the carving loop uses up.\<close>

definition walls :: "grid \<Rightarrow> (int \<times> int) set" where
  "walls g = {(x, y). inBounds x y \<and> g y x = 1}"

text \<open>
  An invariant of the carving loop: the cells on the stack have odd coordinates strictly
  inside the border, and the row and the column next to the far border are untouched.
\<close>

definition carveInv :: "grid \<Rightarrow> (int \<times> int) list \<Rightarrow> bool" where
  "carveInv g st =
     ((\<forall>c \<in> set st. odd (fst c) \<and> odd (snd c) \<and> 0 < fst c \<and> fst c < MAP_WIDTH - 1 \<and>
                      0 < snd c \<and> snd c < MAP_HEIGHT - 1) \<and>
      (\<forall>x y. inBounds x y \<and> (x = MAP_WIDTH - 2 \<or> y = MAP_HEIGHT - 2) \<longrightarrow> g y x = 1))"

text \<open>
  How many steps along one axis a march can still take before it leaves the array:
  \<open>bound\<close> is the size of the array along the axis, \<open>st\<close> the step sign and \<open>m\<close> the
  current map coordinate.
\<close>

definition stepsLeft :: "int \<Rightarrow> int \<Rightarrow> int \<Rightarrow> nat" where
  "stepsLeft bound st m = (if st = 1 then nat (bound - m) else nat (m + 1))"

text \<open>
  A second invariant of the carving loop: the cells on the stack are empty and strictly
  inside the border, the outer ring holds walls, and the flood fill reaches every empty
  cell.
\<close>

definition reachInv :: "grid \<Rightarrow> (int \<times> int) list \<Rightarrow> bool" where
  "reachInv g st =
     ((\<forall>c \<in> set st. 0 < fst c \<and> fst c < MAP_WIDTH - 1 \<and> 0 < snd c \<and> snd c < MAP_HEIGHT - 1 \<and>
                      g (snd c) (fst c) = 0) \<and>
      (\<forall>x y. onBorder x y \<longrightarrow> g y x = 1) \<and>
      (\<forall>x y. inBounds x y \<and> g y x = 0 \<longrightarrow> flood g x y))"

text \<open>A cell strictly inside the range of \<^verbatim>\<open>int\<close>: a step of one cell cannot overflow.\<close>

definition inIntRange :: "int \<Rightarrow> bool" where
  "inIntRange m = (INT_MIN < m \<and> m < INT_MAX)"

section \<open>Arrays and the exploration tracker\<close>

lemma static_cast_int_of_int: "static_cast_int (of_int n) = n"
  by (simp add: static_cast_int_def)

lemma setCell_apply: "setCell a x y v y' x' = (if x' = x \<and> y' = y then v else a y' x')"
  by (simp add: setCell_def)

lemma fold_row_apply:
  "fold (\<lambda>x a. setCell a x y v) xs a y' x' = (if y' = y \<and> x' \<in> set xs then v else a y' x')"
  by (induction xs arbitrary: a) (auto simp: setCell_apply)

lemma fold_rows_apply:
  "fold (\<lambda>y a. fold (\<lambda>x a. setCell a x y v) xs a) ys a y' x' =
     (if y' \<in> set ys \<and> x' \<in> set xs then v else a y' x')"
  by (induction ys arbitrary: a) (auto simp: fold_row_apply)







lemma updateVisited_cases:
  "updateVisited t px py =
     (if inBounds (static_cast_int px) (static_cast_int py) \<and>
         \<not> visitedCells t (static_cast_int py) (static_cast_int px)
      then t\<lparr>visitedCells := setCell (visitedCells t) (static_cast_int px) (static_cast_int py) True,
             distinctVisited := distinctVisited t + 1\<rparr>
      else t)"
  by (simp add: updateVisited_def inBounds_def Let_def)









section \<open>The carving loop terminates\<close>

lemma fillWalls_apply: "fillWalls g y x = (if inBounds x y then 1 else g y x)"
  by (auto simp: fillWalls_def fold_rows_apply inBounds_def)

lemma fold_left_right_apply:
  "fold (\<lambda>y a. setCell (setCell a p y v) q y v) ys a y' x' =
     (if y' \<in> set ys \<and> (x' = p \<or> x' = q) then v else a y' x')"
  by (induction ys arbitrary: a) (auto simp: setCell_apply)

lemma fold_top_bottom_apply:
  "fold (\<lambda>x a. setCell (setCell a x p v) x q v) xs a y' x' =
     (if x' \<in> set xs \<and> (y' = p \<or> y' = q) then v else a y' x')"
  by (induction xs arbitrary: a) (auto simp: setCell_apply)

lemma forceBorders_apply: "forceBorders g y x = (if onBorder x y then 1 else g y x)"
  by (auto simp: forceBorders_def Let_def fold_left_right_apply fold_top_bottom_apply
      onBorder_def inBounds_def MAP_WIDTH_def MAP_HEIGHT_def)

lemma finite_walls: "finite (walls g)"
proof (rule finite_subset)
  show "walls g \<subseteq> {0..<MAP_WIDTH} \<times> {0..<MAP_HEIGHT}"
    by (auto simp: walls_def inBounds_def)
qed simp

lemma uniform_int_index:
  "ns \<noteq> [] \<Longrightarrow> nat (uniform_int gen k 0 (int (length ns) - 1)) < length ns"
  by (simp add: uniform_int_def)

lemma uniform_int_range:
  "lo \<le> hi \<Longrightarrow> lo \<le> uniform_int gen k lo hi \<and> uniform_int gen k lo hi \<le> hi"
proof -
  assume "lo \<le> hi"
  then have "gen k mod nat (hi - lo + 1) < nat (hi - lo + 1)" by simp
  then have "int (gen k mod nat (hi - lo + 1)) < hi - lo + 1" by linarith
  then show ?thesis by (simp add: uniform_int_def)
qed

lemma neighbors_mem:
  assumes "n \<in> set (neighbors g cx cy)"
  shows "0 < fst n \<and> fst n < MAP_WIDTH - 1 \<and> 0 < snd n \<and> snd n < MAP_HEIGHT - 1 \<and>
         g (snd n) (fst n) = 1 \<and>
         (n = (cx, cy - 2) \<or> n = (cx, cy + 2) \<or> n = (cx - 2, cy) \<or> n = (cx + 2, cy))"
proof -
  have "n \<in> {n \<in> set (map (\<lambda>d. (cx + fst d, cy + snd d)) directions).
          fst n > 0 \<and> fst n < MAP_WIDTH - 1 \<and> snd n > 0 \<and> snd n < MAP_HEIGHT - 1 \<and>
          g (snd n) (fst n) = 1}"
    using assms unfolding neighbors_def set_filter .
  moreover have "set (map (\<lambda>d. (cx + fst d, cy + snd d)) directions) =
      {(cx, cy - 2), (cx, cy + 2), (cx - 2, cy), (cx + 2, cy)}"
    by (simp add: directions_def)
  ultimately show ?thesis by blast
qed

lemma sdiv_two_cases:
  "(0::int) sdiv 2 = 0" "(2::int) sdiv 2 = 1" "(- 2::int) sdiv 2 = - 1"
  by (simp_all add: signed_divide_int_def)

text \<open>What one iteration does, case by case.\<close>

lemma carveStep_cases:
  assumes "carveStep g c rest gen k = (g', st', k')"
  shows "(neighbors g (fst c) (snd c) = [] \<and> g' = g \<and> st' = rest \<and> k' = k) \<or>
         (\<exists>n \<in> set (neighbors g (fst c) (snd c)).
            g' = setCell (setCell g (fst c + (fst n - fst c) sdiv 2) (snd c + (snd n - snd c) sdiv 2) 0)
                   (fst n) (snd n) 0 \<and>
            st' = n # c # rest \<and> k' = Suc k)"
proof (cases "neighbors g (fst c) (snd c) = []")
  case True
  then show ?thesis using assms by (simp add: carveStep_def)
next
  case False
  let ?ns = "neighbors g (fst c) (snd c)"
  let ?n = "?ns ! nat (uniform_int gen k 0 (int (length ?ns) - 1))"
  have "?n \<in> set ?ns" using False by (intro nth_mem uniform_int_index)
  moreover have "g' = setCell (setCell g (fst c + (fst ?n - fst c) sdiv 2) (snd c + (snd ?n - snd c) sdiv 2) 0)
                   (fst ?n) (snd ?n) 0 \<and> st' = ?n # c # rest \<and> k' = Suc k"
    using False assms by (simp add: carveStep_def Let_def)
  ultimately show ?thesis by blast
qed

lemma carveStep_measure:
  assumes "carveStep g c rest gen k = (g', st', k')"
  shows "2 * card (walls g') + length st' < 2 * card (walls g) + length (c # rest)"
  using carveStep_cases [OF assms]
proof (elim disjE conjE bexE)
  assume "g' = g" "st' = rest"
  then show ?thesis by simp
next
  fix n
  assume n: "n \<in> set (neighbors g (fst c) (snd c))"
    and g': "g' = setCell (setCell g (fst c + (fst n - fst c) sdiv 2) (snd c + (snd n - snd c) sdiv 2) 0)
                   (fst n) (snd n) 0"
    and st': "st' = n # c # rest"
  from neighbors_mem [OF n] have nin: "(fst n, snd n) \<in> walls g"
    unfolding walls_def inBounds_def by auto
  have "walls g' \<subseteq> walls g - {(fst n, snd n)}"
    by (auto simp: walls_def g' setCell_apply split: if_splits)
  then have "card (walls g') \<le> card (walls g - {(fst n, snd n)})"
    by (intro card_mono) (simp_all add: finite_walls)
  also have "\<dots> < card (walls g)"
    using nin finite_walls by (intro card_Diff1_less)
  finally show ?thesis using st' by simp
qed

text \<open>Total correctness of the loop for an invariant of its iterations.\<close>

lemma carveLoop_total:
  assumes step: "\<And>g c rest k g' st' k'.
      I g (c # rest) \<Longrightarrow> carveStep g c rest gen k = (g', st', k') \<Longrightarrow> I g' st'"
  shows "I g st \<Longrightarrow> \<exists>r. carveLoop g st gen k = Some r \<and> I r []"
proof (induction "2 * card (walls g) + length st" arbitrary: g st k rule: less_induct)
  case less
  show ?case
  proof (cases st)
    case Nil
    then show ?thesis using less.prems by (simp add: carveLoop.simps)
  next
    case (Cons c rest)
    obtain g' st' k' where s: "carveStep g c rest gen k = (g', st', k')"
      by (metis prod_cases3)
    have "2 * card (walls g') + length st' < 2 * card (walls g) + length st"
      using carveStep_measure [OF s] Cons by simp
    moreover have "I g' st'" using step s less.prems Cons by blast
    ultimately have "\<exists>r. carveLoop g' st' gen k' = Some r \<and> I r []"
      by (rule less.hyps)
    moreover have "carveLoop g st gen k = carveLoop g' st' gen k'"
      using Cons s by (subst carveLoop.simps) simp
    ultimately show ?thesis by simp
  qed
qed

lemma carveLoop_terminates: "\<exists>r. carveLoop g st gen k = Some r"
  using carveLoop_total [where I = "\<lambda>_ _. True"] by blast

lemma generateMaze_terminates: "\<exists>g. generateMaze finish g0 gen genF = Some g"
proof -
  obtain r where "carveLoop (setCell (fillWalls g0) 1 1 0) [(1, 1)] gen 0 = Some r"
    using carveLoop_terminates by blast
  then show ?thesis by (simp add: generateMaze_def Let_def)
qed

section \<open>Finish placement and the border\<close>

lemma placeRandomFinish_cases:
  "\<exists>fx fy. onBorder fx fy \<and> \<not> onBorder (fst (insideOf fx fy)) (snd (insideOf fx fy)) \<and>
     inBounds (fst (insideOf fx fy)) (snd (insideOf fx fy)) \<and>
     placeRandomFinish g gen =
       setCell (setCell g (fst (insideOf fx fy)) (snd (insideOf fx fy)) 0) fx fy 2"
proof -
  have w: "1 \<le> uniform_int gen 1 1 (MAP_WIDTH - 2) \<and> uniform_int gen 1 1 (MAP_WIDTH - 2) \<le> MAP_WIDTH - 2"
    by (rule uniform_int_range) (simp add: MAP_WIDTH_def)
  have h: "1 \<le> uniform_int gen 1 1 (MAP_HEIGHT - 2) \<and> uniform_int gen 1 1 (MAP_HEIGHT - 2) \<le> MAP_HEIGHT - 2"
    by (rule uniform_int_range) (simp add: MAP_HEIGHT_def)
  consider (top) "uniform_int gen 0 0 3 = 0"
    | (bottom) "uniform_int gen 0 0 3 = 1"
    | (left) "uniform_int gen 0 0 3 = 2"
    | (right) "uniform_int gen 0 0 3 \<noteq> 0" "uniform_int gen 0 0 3 \<noteq> 1" "uniform_int gen 0 0 3 \<noteq> 2"
    by blast
  then show ?thesis
  proof cases
    case top
    show ?thesis
      apply (rule exI [of _ "uniform_int gen 1 1 (MAP_WIDTH - 2)"])
      apply (rule exI [of _ 0])
      using top w
      by (simp add: placeRandomFinish_def insideOf_def onBorder_def inBounds_def
          MAP_WIDTH_def MAP_HEIGHT_def Let_def)
  next
    case bottom
    show ?thesis
      apply (rule exI [of _ "uniform_int gen 1 1 (MAP_WIDTH - 2)"])
      apply (rule exI [of _ "MAP_HEIGHT - 1"])
      using bottom w
      by (simp add: placeRandomFinish_def insideOf_def onBorder_def inBounds_def
          MAP_WIDTH_def MAP_HEIGHT_def Let_def)
  next
    case left
    show ?thesis
      apply (rule exI [of _ 0])
      apply (rule exI [of _ "uniform_int gen 1 1 (MAP_HEIGHT - 2)"])
      using left h
      by (simp add: placeRandomFinish_def insideOf_def onBorder_def inBounds_def
          MAP_WIDTH_def MAP_HEIGHT_def Let_def)
  next
    case right
    show ?thesis
      apply (rule exI [of _ "MAP_WIDTH - 1"])
      apply (rule exI [of _ "uniform_int gen 1 1 (MAP_HEIGHT - 2)"])
      using right h
      by (simp add: placeRandomFinish_def insideOf_def onBorder_def inBounds_def
          MAP_WIDTH_def MAP_HEIGHT_def Let_def)
  qed
qed

lemma generateMaze_finish_shape:
  "\<exists>r. generateMaze True g0 gen genF = Some (placeRandomFinish (forceBorders r) genF)"
proof -
  obtain r where "carveLoop (setCell (fillWalls g0) 1 1 0) [(1, 1)] gen 0 = Some r"
    using carveLoop_terminates by blast
  then have "generateMaze True g0 gen genF = Some (placeRandomFinish (forceBorders r) genF)"
    by (simp add: generateMaze_def Let_def)
  then show ?thesis by blast
qed

lemma border_invariant:
  "\<exists>g. generateMaze True g0 gen genF = Some g \<and>
     (\<exists>fx fy. onBorder fx fy \<and> g fy fx = 2 \<and>
        (\<forall>x y. onBorder x y \<and> (x, y) \<noteq> (fx, fy) \<longrightarrow> g y x = 1))"
proof -
  obtain r where r: "generateMaze True g0 gen genF = Some (placeRandomFinish (forceBorders r) genF)"
    using generateMaze_finish_shape by blast
  obtain fx fy where f: "onBorder fx fy"
      "\<not> onBorder (fst (insideOf fx fy)) (snd (insideOf fx fy))"
      "placeRandomFinish (forceBorders r) genF =
         setCell (setCell (forceBorders r) (fst (insideOf fx fy)) (snd (insideOf fx fy)) 0) fx fy 2"
    using placeRandomFinish_cases by blast
  have "placeRandomFinish (forceBorders r) genF fy fx = 2"
    by (simp add: f(3) setCell_apply)
  moreover have "\<forall>x y. onBorder x y \<and> (x, y) \<noteq> (fx, fy) \<longrightarrow>
      placeRandomFinish (forceBorders r) genF y x = 1"
    using f(2) by (auto simp: f(3) setCell_apply forceBorders_apply)
  ultimately show ?thesis using r f(1) by blast
qed

lemma finish_reachability:
  "(\<exists>fx fy. onBorder fx fy \<and> placeRandomFinish g genF fy fx = 2 \<and>
       getCell (placeRandomFinish g genF) (fst (insideOf fx fy)) (snd (insideOf fx fy)) = 0 \<and>
       (\<forall>x y. (x, y) \<noteq> (fx, fy) \<and> (x, y) \<noteq> insideOf fx fy \<longrightarrow> placeRandomFinish g genF y x = g y x))"
proof -
  obtain fx fy where f: "onBorder fx fy"
      "\<not> onBorder (fst (insideOf fx fy)) (snd (insideOf fx fy))"
      "inBounds (fst (insideOf fx fy)) (snd (insideOf fx fy))"
      "placeRandomFinish g genF =
         setCell (setCell g (fst (insideOf fx fy)) (snd (insideOf fx fy)) 0) fx fy 2"
    using placeRandomFinish_cases by blast
  have ne: "insideOf fx fy \<noteq> (fx, fy)" using f(1,2) by (metis fst_conv snd_conv)
  have "placeRandomFinish g genF fy fx = 2"
    by (simp add: f(4) setCell_apply)
  moreover have "getCell (placeRandomFinish g genF) (fst (insideOf fx fy)) (snd (insideOf fx fy)) = 0"
    using f(3) ne by (auto simp: getCell_def inBounds_def f(4) setCell_apply prod_eq_iff)
  moreover have "\<forall>x y. (x, y) \<noteq> (fx, fy) \<and> (x, y) \<noteq> insideOf fx fy \<longrightarrow> placeRandomFinish g genF y x = g y x"
    by (auto simp: f(4) setCell_apply prod_eq_iff)
  ultimately show ?thesis using f(1) by blast
qed

section \<open>A passage that the carved maze does not reach\<close>

lemma carveInv_init: "carveInv (setCell (fillWalls g0) 1 1 0) [(1, 1)]"
  by (auto simp: carveInv_def setCell_apply fillWalls_apply MAP_WIDTH_def MAP_HEIGHT_def)

lemma carveInv_step:
  assumes inv: "carveInv g (c # rest)" and s: "carveStep g c rest gen k = (g', st', k')"
  shows "carveInv g' st'"
  using carveStep_cases [OF s]
proof (elim disjE conjE bexE)
  assume "g' = g" "st' = rest"
  then show ?thesis using inv by (simp add: carveInv_def)
next
  fix n
  assume n: "n \<in> set (neighbors g (fst c) (snd c))"
    and g': "g' = setCell (setCell g (fst c + (fst n - fst c) sdiv 2) (snd c + (snd n - snd c) sdiv 2) 0)
                   (fst n) (snd n) 0"
    and st': "st' = n # c # rest"
  have c: "odd (fst c)" "odd (snd c)" "0 < fst c" "fst c < MAP_WIDTH - 1" "0 < snd c" "snd c < MAP_HEIGHT - 1"
    using inv by (simp_all add: carveInv_def)
  note m = neighbors_mem [OF n]
  have nodd: "odd (fst n) \<and> odd (snd n)"
    using m c by auto
  have wall: "fst c + (fst n - fst c) sdiv 2 \<noteq> MAP_WIDTH - 2 \<and>
              snd c + (snd n - snd c) sdiv 2 \<noteq> MAP_HEIGHT - 2"
    using m c by (auto simp: sdiv_two_cases MAP_WIDTH_def MAP_HEIGHT_def)
  have ne: "fst n \<noteq> MAP_WIDTH - 2 \<and> snd n \<noteq> MAP_HEIGHT - 2"
    using nodd by (auto simp: MAP_WIDTH_def MAP_HEIGHT_def)
  have "\<forall>x y. inBounds x y \<and> (x = MAP_WIDTH - 2 \<or> y = MAP_HEIGHT - 2) \<longrightarrow> g' y x = 1"
    using inv wall ne by (auto simp: carveInv_def g' setCell_apply)
  moreover have "\<forall>c \<in> set st'. odd (fst c) \<and> odd (snd c) \<and> 0 < fst c \<and> fst c < MAP_WIDTH - 1 \<and>
                      0 < snd c \<and> snd c < MAP_HEIGHT - 1"
    using inv m nodd by (simp add: carveInv_def st')
  ultimately show ?thesis by (simp add: carveInv_def)
qed

lemma carveLoop_far_ring:
  "\<exists>r. carveLoop (setCell (fillWalls g0) 1 1 0) [(1, 1)] gen 0 = Some r \<and>
       (\<forall>x y. inBounds x y \<and> (x = MAP_WIDTH - 2 \<or> y = MAP_HEIGHT - 2) \<longrightarrow> r y x = 1)"
proof -
  have "\<exists>r. carveLoop (setCell (fillWalls g0) 1 1 0) [(1, 1)] gen 0 = Some r \<and> carveInv r []"
    by (rule carveLoop_total [where I = carveInv, OF carveInv_step carveInv_init])
  then show ?thesis by (auto simp: carveInv_def)
qed

lemma flood_empty: "flood g x y \<Longrightarrow> getCell g x y = 0"
  by (induction rule: flood.induct) simp_all

lemma flood_isolated:
  assumes "(a, b) \<noteq> (1, 1)"
    and "getCell g (a - 1) b \<noteq> 0" and "getCell g (a + 1) b \<noteq> 0"
    and "getCell g a (b - 1) \<noteq> 0" and "getCell g a (b + 1) \<noteq> 0"
  shows "\<not> flood g a b"
proof
  assume "flood g a b"
  then show False
  proof (cases rule: flood.cases)
    case flood_start
    then show False using assms(1) by simp
  next
    case (flood_step x y)
    from flood_step(2) have "(x, y) = (a - 1, b) \<or> (x, y) = (a + 1, b) \<or> (x, y) = (a, b - 1) \<or> (x, y) = (a, b + 1)"
      by auto
    moreover have "getCell g x y = 0" using flood_step(1) by (rule flood_empty)
    ultimately show False using assms(2-5) by auto
  qed
qed

lemma bottom_finish_isolated:
  assumes b: "uniform_int genF 0 0 3 = 1" and o: "uniform_int genF 1 1 (MAP_WIDTH - 2) = 248"
  shows "\<exists>m. generateMaze True g0 gen genF = Some m \<and> getCell m 248 248 = 0 \<and>
             getCell m 248 249 = 2 \<and> \<not> flood m 248 248"
proof -
  obtain r where r: "carveLoop (setCell (fillWalls g0) 1 1 0) [(1, 1)] gen 0 = Some r"
    and ring: "\<forall>x y. inBounds x y \<and> (x = MAP_WIDTH - 2 \<or> y = MAP_HEIGHT - 2) \<longrightarrow> r y x = 1"
    using carveLoop_far_ring by blast
  let ?m = "setCell (setCell (forceBorders r) 248 248 0) 248 249 2"
  have pf: "placeRandomFinish (forceBorders r) genF = ?m"
    using b o by (simp add: placeRandomFinish_def Let_def MAP_HEIGHT_def)
  have gm: "generateMaze True g0 gen genF = Some ?m"
    using r pf by (simp add: generateMaze_def Let_def)
  have c1: "getCell ?m 248 248 = 0"
    by (simp add: getCell_def setCell_apply MAP_WIDTH_def MAP_HEIGHT_def)
  have c2: "getCell ?m 248 249 = 2"
    by (simp add: getCell_def setCell_apply MAP_WIDTH_def MAP_HEIGHT_def)
  have r1: "r 248 247 = 1" and r2: "r 247 248 = 1"
    using ring by (simp_all add: inBounds_def MAP_WIDTH_def MAP_HEIGHT_def)
  have n1: "getCell ?m (248 - 1) 248 \<noteq> 0"
    using r1 by (simp add: getCell_def setCell_apply forceBorders_apply onBorder_def inBounds_def
        MAP_WIDTH_def MAP_HEIGHT_def)
  have n2: "getCell ?m (248 + 1) 248 \<noteq> 0"
    by (simp add: getCell_def setCell_apply forceBorders_apply onBorder_def inBounds_def
        MAP_WIDTH_def MAP_HEIGHT_def)
  have n3: "getCell ?m 248 (248 - 1) \<noteq> 0"
    using r2 by (simp add: getCell_def setCell_apply forceBorders_apply onBorder_def inBounds_def
        MAP_WIDTH_def MAP_HEIGHT_def)
  have n4: "getCell ?m 248 (248 + 1) \<noteq> 0"
    by (simp add: getCell_def setCell_apply MAP_WIDTH_def MAP_HEIGHT_def)
  have "\<not> flood ?m 248 248"
    by (rule flood_isolated [OF _ n1 n2 n3 n4]) simp
  then show ?thesis using gm c1 c2 by blast
qed

lemma isolated_passage_example:
  "\<exists>m. generateMaze True (\<lambda>y x. 0) (\<lambda>k. 0) (\<lambda>k. if k = 0 then 1 else 247) = Some m \<and>
       getCell m 248 248 = 0 \<and> getCell m 248 249 = 2 \<and> \<not> flood m 248 248"
  by (rule bottom_finish_isolated) (simp_all add: uniform_int_def MAP_WIDTH_def)

section \<open>The collision resolver\<close>

lemma forEach_unchanged:
  "(\<And>x. x \<in> set xs \<Longrightarrow> f x s = Inr s) \<Longrightarrow> forEach f xs s = Inr s"
  by (induction xs) simp_all


lemma pushOut_no_overlap:
  "\<not> overlapsCell p hitbox cx cy \<Longrightarrow> pushOut hitbox cx cy p = Inr p"
  by (simp add: overlapsCell_def closestPoint_def pushOut_def Let_def power2_eq_square)



lemma resolveCircleCollision_unchanged:
  assumes "\<forall>cx cy. inBounds cx cy \<and> g cy cx = 1 \<longrightarrow> \<not> overlapsCell p hitbox cx cy"
  shows "resolveCircleCollision g p hitbox = Inr p"
  unfolding resolveCircleCollision_def Let_def
proof (intro forEach_unchanged)
  fix cx cy
  assume "cy \<in> set [max 0 (static_cast_int (std_floor (snd p - hitbox)))..min (MAP_HEIGHT - 1) (static_cast_int (std_ceil (snd p + hitbox)))]"
    and "cx \<in> set [max 0 (static_cast_int (std_floor (fst p - hitbox)))..min (MAP_WIDTH - 1) (static_cast_int (std_ceil (fst p + hitbox)))]"
  then have ib: "inBounds cx cy" by (auto simp: inBounds_def)
  then have "getCell g cx cy = g cy cx" by (auto simp: getCell_def inBounds_def)
  then show "(if getCell g cx cy = 1 then pushOut hitbox cx cy p else Inr p) = Inr p"
    using assms ib by (simp add: pushOut_no_overlap)
qed



lemma std_floor_cast: "static_cast_int (std_floor d) = \<lfloor>d\<rfloor>"
  by (simp add: std_floor_def static_cast_int_of_int)

lemma std_ceil_cast: "static_cast_int (std_ceil d) = \<lceil>d\<rceil>"
  by (simp add: std_ceil_def static_cast_int_of_int)

section \<open>The marching loop\<close>

lemma getCell_empty_inBounds: "\<not> getCell g x y > 0 \<Longrightarrow> inBounds x y"
  by (auto simp: getCell_def inBounds_def split: if_splits)

lemma inBounds_inIntRange: "inBounds x y \<Longrightarrow> inIntRange x \<and> inIntRange y"
  by (simp add: inBounds_def inIntRange_def INT_MIN_def INT_MAX_def MAP_WIDTH_def MAP_HEIGHT_def)

lemma int_add_step:
  "inIntRange m \<Longrightarrow> st = 1 \<or> st = - 1 \<Longrightarrow> int_add m st = Inr (m + st)"
  by (auto simp: int_add_def inIntRange_def)

lemma ddaStep_ok:
  assumes "stepX = 1 \<or> stepX = - 1" and "stepY = 1 \<or> stepY = - 1"
    and "inIntRange (mapX s)" and "inIntRange (mapY s)"
  shows "\<exists>s'. ddaStep dX dY stepX stepY s = Inr s' \<and>
           ((mapX s' = mapX s + stepX \<and> mapY s' = mapY s) \<or>
            (mapX s' = mapX s \<and> mapY s' = mapY s + stepY))"
proof (cases "sideDistX s < sideDistY s")
  case True
  then show ?thesis
    using int_add_step [OF assms(3) assms(1)] by (simp add: ddaStep_def)
next
  case False
  then show ?thesis
    using int_add_step [OF assms(4) assms(2)] by (simp add: ddaStep_def)
qed

lemma step_measure:
  assumes sx: "stepX = 1 \<or> stepX = - 1" and sy: "stepY = 1 \<or> stepY = - 1"
    and mv: "(x' = x + stepX \<and> y' = y) \<or> (x' = x \<and> y' = y + stepY)"
    and ib: "inBounds x' y'"
  shows "stepsLeft MAP_WIDTH stepX x' + stepsLeft MAP_HEIGHT stepY y'
         < stepsLeft MAP_WIDTH stepX x + stepsLeft MAP_HEIGHT stepY y"
  using assms by (auto simp: stepsLeft_def inBounds_def)

text \<open>
  From a start cell strictly inside the range of \<^verbatim>\<open>int\<close> the march stops without an
  overflow, in a cell that is not empty.
\<close>

lemma ddaMarch_terminates:
  assumes sx: "stepX = 1 \<or> stepX = - 1" and sy: "stepY = 1 \<or> stepY = - 1"
  shows "inIntRange (mapX s) \<Longrightarrow> inIntRange (mapY s) \<Longrightarrow>
         \<exists>r. ddaMarch g dX dY stepX stepY s = Some (Inr r) \<and> getCell g (mapX r) (mapY r) > 0"
proof (induction "stepsLeft MAP_WIDTH stepX (mapX s) + stepsLeft MAP_HEIGHT stepY (mapY s)"
    arbitrary: s rule: less_induct)
  case less
  obtain s' where s': "ddaStep dX dY stepX stepY s = Inr s'"
    and mv: "(mapX s' = mapX s + stepX \<and> mapY s' = mapY s) \<or>
             (mapX s' = mapX s \<and> mapY s' = mapY s + stepY)"
    using ddaStep_ok [OF sx sy less.prems] by blast
  show ?case
  proof (cases "getCell g (mapX s') (mapY s') > 0")
    case True
    then have "ddaMarch g dX dY stepX stepY s = Some (Inr s')"
      by (subst ddaMarch.simps) (simp add: s')
    then show ?thesis using True by simp
  next
    case False
    then have eq: "ddaMarch g dX dY stepX stepY s = ddaMarch g dX dY stepX stepY s'"
      by (subst ddaMarch.simps) (simp add: s')
    have ib: "inBounds (mapX s') (mapY s')"
      using False by (rule getCell_empty_inBounds)
    have "\<exists>r. ddaMarch g dX dY stepX stepY s' = Some (Inr r) \<and> getCell g (mapX r) (mapY r) > 0"
      using step_measure [OF sx sy mv ib] inBounds_inIntRange [OF ib] by (intro less.hyps) simp_all
    then show ?thesis using eq by simp
  qed
qed

lemma cast_in_range:
  assumes "- 2147483648 < d" and "d < 2147483647"
  shows "static_cast_int_checked d = Inr (static_cast_int d) \<and> inIntRange (static_cast_int d)"
proof -
  have "INT_MIN < static_cast_int d \<and> static_cast_int d < INT_MAX"
  proof (cases "d < 0")
    case True
    have "- 2147483648 < \<lceil>d\<rceil>" using assms(1) by linarith
    moreover have "\<lceil>d\<rceil> \<le> 0" using True by linarith
    ultimately show ?thesis using True
      by (simp add: static_cast_int_def INT_MIN_def INT_MAX_def)
  next
    case False
    have "\<lfloor>d\<rfloor> < 2147483647" using assms(2) by linarith
    moreover have "0 \<le> \<lfloor>d\<rfloor>" using False by simp
    ultimately show ?thesis using False
      by (simp add: static_cast_int_def INT_MIN_def INT_MAX_def)
  qed
  then show ?thesis by (simp add: static_cast_int_checked_def inIntRange_def)
qed

lemma march_result:
  assumes "stepX = 1 \<or> stepX = - 1" and "stepY = 1 \<or> stepY = - 1"
    and "inIntRange (mapX s)" and "inIntRange (mapY s)"
  shows "\<exists>h. (case ddaMarch g dX dY stepX stepY s of
               None \<Rightarrow> None
             | Some (Inl e) \<Rightarrow> Some (Inl e)
             | Some (Inr s') \<Rightarrow> Some (Inr \<lparr>hitMapX = mapX s', hitMapY = mapY s', hitSide = side s',
                                perpWallDist = f s'\<rparr>)) = Some (Inr h) \<and>
             getCell g (hitMapX h) (hitMapY h) > 0"
proof -
  obtain r where "ddaMarch g dX dY stepX stepY s = Some (Inr r)" "getCell g (mapX r) (mapY r) > 0"
    using ddaMarch_terminates [OF assms] by blast
  then show ?thesis by simp
qed

lemma castRay_terminates:
  assumes "- 2147483648 < px" and "px < 2147483647"
    and "- 2147483648 < py" and "py < 2147483647"
  shows "\<exists>h. castRay g px py dirX dirY planeX planeY screenWidth x = Some (Inr h) \<and>
           getCell g (hitMapX h) (hitMapY h) > 0"
proof -
  note cx = cast_in_range [OF assms(1,2)] and cy = cast_in_range [OF assms(3,4)]
  have cxe: "static_cast_int_checked px = Inr (static_cast_int px)" using cx by simp
  have cye: "static_cast_int_checked py = Inr (static_cast_int py)" using cy by simp
  show ?thesis
    unfolding castRay_def Let_def cxe cye sum.case
    by (rule march_result) (use cx cy in simp_all)
qed

lemma ddaMarch_hit_first:
  "ddaStep dX dY stepX stepY s = Inr s' \<Longrightarrow> getCell g (mapX s') (mapY s') > 0 \<Longrightarrow>
   ddaMarch g dX dY stepX stepY s = Some (Inr s')"
  by (subst ddaMarch.simps) simp

lemma ddaMarch_overflow:
  "ddaStep dX dY stepX stepY s = Inl e \<Longrightarrow> ddaMarch g dX dY stepX stepY s = Some (Inl e)"
  by (subst ddaMarch.simps) simp

lemma cast_three_halves: "static_cast_int_checked (3 / 2) = Inr 1"
  by (simp add: static_cast_int_checked_def static_cast_int_def INT_MIN_def INT_MAX_def)

lemma scenario_narrow_plane:
  assumes g: "\<forall>x \<in> {0, 1, 2}. \<forall>y \<in> {0, 1, 2}. g y x = (if x = 1 \<and> y = 1 then 0 else 1)"
    and p: "\<bar>planeY\<bar> < 1"
  shows "castRay g (3 / 2) (3 / 2) 1 0 0 planeY 1 0 =
           Some (Inr \<lparr>hitMapX = 2, hitMapY = 1, hitSide = 0, perpWallDist = Finite (1 / 2)\<rparr>)"
proof -
  have g21: "getCell g 2 1 = 1"
    using g by (simp add: getCell_def MAP_WIDTH_def MAP_HEIGHT_def)
  have add: "int_add 1 1 = Inr 2"
    by (simp add: int_add_def INT_MIN_def INT_MAX_def)
  consider (zero) "planeY = 0" | (pos) "0 < planeY" "planeY < 1" | (neg) "planeY < 0" "- 1 < planeY"
    using p by linarith
  then show ?thesis
  proof cases
    case zero
    show ?thesis
      unfolding castRay_def Let_def
      apply (subst ddaMarch.simps)
      apply (simp add: zero cast_three_halves ddaStep_def add g21 double_divide_def)
      done
  next
    case pos
    then have lt: "1 / 2 < 1 / (planeY * 2)" by (simp add: field_simps)
    show ?thesis
      unfolding castRay_def Let_def
      apply (subst ddaMarch.simps)
      using pos lt
      apply (simp add: cast_three_halves ddaStep_def add g21 double_divide_def)
      done
  next
    case neg
    then have lt: "1 / 2 < - (1 / (planeY * 2))" by (simp add: field_simps)
    show ?thesis
      unfolding castRay_def Let_def
      apply (subst ddaMarch.simps)
      using neg lt
      apply (simp add: cast_three_halves ddaStep_def add g21 double_divide_def)
      done
  qed
qed

lemma scenario_fullscreen_plane:
  "castRay grid3 (3 / 2) (3 / 2) 1 0 0 1 1 0 =
     Some (Inr \<lparr>hitMapX = 1, hitMapY = 0, hitSide = 1, perpWallDist = Finite (1 / 2)\<rparr>)"
proof -
  have add: "int_add 1 (- 1) = Inr 0"
    by (simp add: int_add_def INT_MIN_def INT_MAX_def)
  show ?thesis
    unfolding castRay_def Let_def
    apply (subst ddaMarch.simps)
    apply (simp add: cast_three_halves ddaStep_def add double_divide_def
        getCell_def grid3_def MAP_WIDTH_def MAP_HEIGHT_def)
    done
qed

text \<open>Three positions at which a column has no result.\<close>

lemma cast_too_far:
  "castRay g 3000000000 py dirX dirY planeX planeY screenWidth x = Some (Inl CastOutOfRange)"
  by (simp add: castRay_def Let_def static_cast_int_checked_def static_cast_int_def
      INT_MIN_def INT_MAX_def)

lemma step_overflows:
  "castRay g (4294967295 / 2) (3 / 2) 1 0 0 (33 / 50) 1 0 = Some (Inl IntOverflow)"
proof -
  have c: "static_cast_int_checked (4294967295 / 2) = Inr 2147483647"
    by (simp add: static_cast_int_checked_def static_cast_int_def INT_MIN_def INT_MAX_def)
  have add: "int_add 2147483647 1 = Inl IntOverflow"
    by (simp add: int_add_def INT_MIN_def INT_MAX_def)
  show ?thesis
    unfolding castRay_def Let_def
    apply (subst ddaMarch.simps)
    apply (simp add: c cast_three_halves ddaStep_def add)
    done
qed

lemma zero_distance_hit:
  "castRay grid3 1 (3 / 2) (- 1) 0 0 (33 / 50) 2 1 =
     Some (Inr \<lparr>hitMapX = 0, hitMapY = 1, hitSide = 0, perpWallDist = Finite 0\<rparr>)"
proof -
  have c: "static_cast_int_checked 1 = Inr 1"
    by (simp add: static_cast_int_checked_def static_cast_int_def INT_MIN_def INT_MAX_def)
  have add: "int_add 1 (- 1) = Inr 0"
    by (simp add: int_add_def INT_MIN_def INT_MAX_def)
  show ?thesis
    unfolding castRay_def Let_def
    apply (subst ddaMarch.simps)
    apply (simp add: c cast_three_halves ddaStep_def add double_divide_def
        getCell_def grid3_def MAP_WIDTH_def MAP_HEIGHT_def)
    done
qed

lemma lineHeight_zero_distance: "lineHeight 480 (Finite 0) = Inl CastOutOfRange"
  by (simp add: lineHeight_def double_divide_def)

section \<open>Visiting every cell\<close>








section \<open>The carved maze is connected\<close>

lemma flood_mono:
  assumes "\<And>x y. getCell g x y = 0 \<Longrightarrow> getCell g' x y = 0"
  shows "flood g x y \<Longrightarrow> flood g' x y"
proof (induction rule: flood.induct)
  case flood_start
  then have "getCell g' 1 1 = 0" by (rule assms)
  then show ?case by (rule flood.flood_start)
next
  case (flood_step x y x' y')
  from flood_step(3) have "getCell g' x' y' = 0" by (rule assms)
  with flood_step(4) flood_step(2) show ?case by (rule flood.flood_step)
qed

lemma getCell_inBounds: "inBounds x y \<Longrightarrow> getCell g x y = g y x"
  by (auto simp: getCell_def inBounds_def)

lemma getCell_zero_iff: "getCell g x y = 0 \<longleftrightarrow> inBounds x y \<and> g y x = 0"
  by (auto simp: getCell_def inBounds_def)

lemma reachInv_init: "reachInv (setCell (fillWalls g0) 1 1 0) [(1, 1)]"
proof -
  let ?g = "setCell (fillWalls g0) 1 1 0"
  have "getCell ?g 1 1 = 0"
    by (simp add: getCell_def setCell_apply MAP_WIDTH_def MAP_HEIGHT_def)
  then have "flood ?g 1 1" by (rule flood.flood_start)
  moreover have "\<forall>x y. inBounds x y \<and> ?g y x = 0 \<longrightarrow> x = 1 \<and> y = 1"
    by (auto simp: setCell_apply fillWalls_apply split: if_splits)
  ultimately have "\<forall>x y. inBounds x y \<and> ?g y x = 0 \<longrightarrow> flood ?g x y" by blast
  moreover have "\<forall>x y. onBorder x y \<longrightarrow> ?g y x = 1"
    by (auto simp: setCell_apply fillWalls_apply onBorder_def MAP_WIDTH_def MAP_HEIGHT_def)
  ultimately show ?thesis
    by (simp add: reachInv_def setCell_apply MAP_WIDTH_def MAP_HEIGHT_def)
qed

lemma reachInv_step:
  assumes inv: "reachInv g (c # rest)" and s: "carveStep g c rest gen k = (g', st', k')"
  shows "reachInv g' st'"
  using carveStep_cases [OF s]
proof (elim disjE conjE bexE)
  assume "g' = g" "st' = rest"
  then show ?thesis using inv by (simp add: reachInv_def)
next
  fix n
  assume n: "n \<in> set (neighbors g (fst c) (snd c))"
    and g': "g' = setCell (setCell g (fst c + (fst n - fst c) sdiv 2) (snd c + (snd n - snd c) sdiv 2) 0)
                   (fst n) (snd n) 0"
    and st': "st' = n # c # rest"
  let ?wx = "fst c + (fst n - fst c) sdiv 2" and ?wy = "snd c + (snd n - snd c) sdiv 2"
  have c: "0 < fst c" "fst c < MAP_WIDTH - 1" "0 < snd c" "snd c < MAP_HEIGHT - 1" "g (snd c) (fst c) = 0"
    using inv by (simp_all add: reachInv_def)
  have border: "\<forall>x y. onBorder x y \<longrightarrow> g y x = 1"
    and reach: "\<forall>x y. inBounds x y \<and> g y x = 0 \<longrightarrow> flood g x y"
    using inv by (simp_all add: reachInv_def)
  note m = neighbors_mem [OF n]
  have w: "0 < ?wx \<and> ?wx < MAP_WIDTH - 1 \<and> 0 < ?wy \<and> ?wy < MAP_HEIGHT - 1"
    using m c by (auto simp: sdiv_two_cases)
  have adj1: "\<bar>?wx - fst c\<bar> + \<bar>?wy - snd c\<bar> = 1"
    using m by (auto simp: sdiv_two_cases)
  have adj2: "\<bar>fst n - ?wx\<bar> + \<bar>snd n - ?wy\<bar> = 1"
    using m by (auto simp: sdiv_two_cases)
  have mono: "\<And>x y. getCell g x y = 0 \<Longrightarrow> getCell g' x y = 0"
    by (auto simp: getCell_def g' setCell_apply)
  have "flood g (fst c) (snd c)"
    using reach c by (simp add: inBounds_def)
  with mono have fc: "flood g' (fst c) (snd c)" by (rule flood_mono)
  have gw: "getCell g' ?wx ?wy = 0"
    using w by (simp add: getCell_def g' setCell_apply)
  have gn: "getCell g' (fst n) (snd n) = 0"
    using m by (simp add: getCell_def g' setCell_apply)
  have fw: "flood g' ?wx ?wy"
    by (rule flood.flood_step [OF fc adj1 gw])
  have fn: "flood g' (fst n) (snd n)"
    by (rule flood.flood_step [OF fw adj2 gn])
  have r': "\<forall>x y. inBounds x y \<and> g' y x = 0 \<longrightarrow> flood g' x y"
  proof (intro allI impI)
    fix x y
    assume a: "inBounds x y \<and> g' y x = 0"
    consider "(x, y) = (fst n, snd n)" | "(x, y) = (?wx, ?wy)" | "g y x = 0"
      using a by (auto simp: g' setCell_apply split: if_splits)
    then show "flood g' x y"
    proof cases
      case 1
      then have "fst n = x" "snd n = y" by auto
      then show ?thesis using fn by simp
    next
      case 2
      then have "?wx = x" "?wy = y" by auto
      then show ?thesis using fw by simp
    next
      case 3
      then have "flood g x y" using reach a by simp
      with mono show ?thesis by (rule flood_mono)
    qed
  qed
  have b': "\<forall>x y. onBorder x y \<longrightarrow> g' y x = 1"
    using border w m by (auto simp: g' setCell_apply onBorder_def)
  have s': "\<forall>c \<in> set st'. 0 < fst c \<and> fst c < MAP_WIDTH - 1 \<and> 0 < snd c \<and> snd c < MAP_HEIGHT - 1 \<and>
                      g' (snd c) (fst c) = 0"
    using inv m by (auto simp: reachInv_def st' g' setCell_apply)
  show ?thesis using r' b' s' by (simp add: reachInv_def)
qed

lemma carveLoop_connected:
  "\<exists>r. carveLoop (setCell (fillWalls g0) 1 1 0) [(1, 1)] gen 0 = Some r \<and>
       (\<forall>x y. onBorder x y \<longrightarrow> r y x = 1) \<and>
       (\<forall>x y. inBounds x y \<and> r y x = 0 \<longrightarrow> flood r x y)"
proof -
  have "\<exists>r. carveLoop (setCell (fillWalls g0) 1 1 0) [(1, 1)] gen 0 = Some r \<and> reachInv r []"
    by (rule carveLoop_total [where I = reachInv, OF reachInv_step reachInv_init])
  then show ?thesis by (auto simp: reachInv_def)
qed

lemma forceBorders_id: "(\<forall>x y. onBorder x y \<longrightarrow> r y x = 1) \<Longrightarrow> forceBorders r = r"
  by (intro ext) (simp add: forceBorders_apply)

text \<open>
  Every empty cell of a generated maze other than the passage cell that
  \<^verbatim>\<open>placeRandomFinish\<close> opened is reached by the flood fill.
\<close>

lemma generated_connected_but_passage:
  "\<exists>m fx fy. generateMaze True g0 gen genF = Some m \<and> onBorder fx fy \<and> m fy fx = 2 \<and>
     (\<forall>x y. getCell m x y = 0 \<and> (x, y) \<noteq> insideOf fx fy \<longrightarrow> flood m x y)"
proof -
  obtain r where r: "carveLoop (setCell (fillWalls g0) 1 1 0) [(1, 1)] gen 0 = Some r"
    and b: "\<forall>x y. onBorder x y \<longrightarrow> r y x = 1"
    and c: "\<forall>x y. inBounds x y \<and> r y x = 0 \<longrightarrow> flood r x y"
    using carveLoop_connected by blast
  have fb: "forceBorders r = r" using b by (rule forceBorders_id)
  let ?m = "placeRandomFinish r genF"
  have gm: "generateMaze True g0 gen genF = Some ?m"
    using r fb by (simp add: generateMaze_def Let_def)
  obtain fx fy where f: "onBorder fx fy" "?m fy fx = 2"
      "\<forall>x y. (x, y) \<noteq> (fx, fy) \<and> (x, y) \<noteq> insideOf fx fy \<longrightarrow> ?m y x = r y x"
      and fi: "getCell ?m (fst (insideOf fx fy)) (snd (insideOf fx fy)) = 0"
    using finish_reachability [of r genF] by blast
  have mono: "\<And>x y. getCell r x y = 0 \<Longrightarrow> getCell ?m x y = 0"
  proof -
    fix x y
    assume a: "getCell r x y = 0"
    then have ib: "inBounds x y" "r y x = 0" by (simp_all add: getCell_zero_iff)
    then have "(x, y) \<noteq> (fx, fy)" using b f(1) by auto
    show "getCell ?m x y = 0"
    proof (cases "(x, y) = insideOf fx fy")
      case True
      then have "fst (insideOf fx fy) = x" "snd (insideOf fx fy) = y"
        by (simp_all add: prod_eq_iff)
      then show ?thesis using fi by simp
    next
      case False
      then have "?m y x = r y x" using f(3) \<open>(x, y) \<noteq> (fx, fy)\<close> by blast
      then show ?thesis using ib by (simp add: getCell_zero_iff)
    qed
  qed
  have "\<forall>x y. getCell ?m x y = 0 \<and> (x, y) \<noteq> insideOf fx fy \<longrightarrow> flood ?m x y"
  proof (intro allI impI)
    fix x y
    assume a: "getCell ?m x y = 0 \<and> (x, y) \<noteq> insideOf fx fy"
    then have ib: "inBounds x y" "?m y x = 0" by (simp_all add: getCell_zero_iff)
    then have "(x, y) \<noteq> (fx, fy)" using f(2) by auto
    then have "r y x = 0" using f(3) a ib by auto
    then have "flood r x y" using c ib by simp
    with mono show "flood ?m x y" by (rule flood_mono)
  qed
  then show ?thesis using gm f(1,2) by blast
qed

text \<open>
  The passage cell itself is reached exactly when it is the start cell or one of its four
  neighbours is empty.
\<close>

lemma generated_passage_reached_iff:
  "\<exists>m fx fy. generateMaze True g0 gen genF = Some m \<and> onBorder fx fy \<and> m fy fx = 2 \<and>
     (\<forall>x y. getCell m x y = 0 \<and> (x, y) \<noteq> insideOf fx fy \<longrightarrow> flood m x y) \<and>
     (flood m (fst (insideOf fx fy)) (snd (insideOf fx fy)) \<longleftrightarrow>
        getCell m (fst (insideOf fx fy)) (snd (insideOf fx fy)) = 0 \<and>
        (insideOf fx fy = (1, 1) \<or>
         (\<exists>x y. \<bar>fst (insideOf fx fy) - x\<bar> + \<bar>snd (insideOf fx fy) - y\<bar> = 1 \<and> getCell m x y = 0)))"
proof -
  obtain m fx fy where m: "generateMaze True g0 gen genF = Some m" "onBorder fx fy" "m fy fx = 2"
    and c: "\<forall>x y. getCell m x y = 0 \<and> (x, y) \<noteq> insideOf fx fy \<longrightarrow> flood m x y"
    using generated_connected_but_passage by blast
  define ix where "ix = fst (insideOf fx fy)"
  define iy where "iy = snd (insideOf fx fy)"
  have i: "insideOf fx fy = (ix, iy)" by (simp add: ix_def iy_def)
  have iff: "flood m ix iy \<longleftrightarrow>
      getCell m ix iy = 0 \<and>
      ((ix, iy) = (1, 1) \<or> (\<exists>x y. \<bar>ix - x\<bar> + \<bar>iy - y\<bar> = 1 \<and> getCell m x y = 0))"
  proof
    assume f: "flood m ix iy"
    then have e: "getCell m ix iy = 0" by (rule flood_empty)
    from f have "(ix, iy) = (1, 1) \<or> (\<exists>x y. \<bar>ix - x\<bar> + \<bar>iy - y\<bar> = 1 \<and> getCell m x y = 0)"
    proof (cases rule: flood.cases)
      case flood_start
      then show ?thesis by simp
    next
      case (flood_step x y)
      then have "getCell m x y = 0" using flood_empty by blast
      then show ?thesis using flood_step(2) by blast
    qed
    with e show "getCell m ix iy = 0 \<and>
      ((ix, iy) = (1, 1) \<or> (\<exists>x y. \<bar>ix - x\<bar> + \<bar>iy - y\<bar> = 1 \<and> getCell m x y = 0))" by simp
  next
    assume a: "getCell m ix iy = 0 \<and>
      ((ix, iy) = (1, 1) \<or> (\<exists>x y. \<bar>ix - x\<bar> + \<bar>iy - y\<bar> = 1 \<and> getCell m x y = 0))"
    then have e: "getCell m ix iy = 0" by simp
    from a consider (start) "(ix, iy) = (1, 1)"
      | (nb) x y where "\<bar>ix - x\<bar> + \<bar>iy - y\<bar> = 1" "getCell m x y = 0"
      by blast
    then show "flood m ix iy"
    proof cases
      case start
      then have "ix = 1" "iy = 1" by simp_all
      then show ?thesis using e flood.flood_start [of m] by simp
    next
      case nb
      then have "(x, y) \<noteq> (ix, iy)" by auto
      then have "flood m x y" using c nb(2) i by simp
      then show ?thesis using nb(1) e by (rule flood.flood_step)
    qed
  qed
  show ?thesis
  proof (intro exI conjI)
    show "generateMaze True g0 gen genF = Some m" by fact
    show "onBorder fx fy" by fact
    show "m fy fx = 2" by fact
    show "\<forall>x y. getCell m x y = 0 \<and> (x, y) \<noteq> insideOf fx fy \<longrightarrow> flood m x y" by fact
    show "flood m (fst (insideOf fx fy)) (snd (insideOf fx fy)) \<longleftrightarrow>
        getCell m (fst (insideOf fx fy)) (snd (insideOf fx fy)) = 0 \<and>
        (insideOf fx fy = (1, 1) \<or>
         (\<exists>x y. \<bar>fst (insideOf fx fy) - x\<bar> + \<bar>snd (insideOf fx fy) - y\<bar> = 1 \<and> getCell m x y = 0))"
      using iff [unfolded ix_def iy_def prod.collapse] .
  qed
qed

section \<open>The tracker contract, and where \<^verbatim>\<open>raycast_maze-v1.cpp\<close> differs\<close>

text \<open>What one \<^verbatim>\<open>updateVisited\<close> call of the guarded version does, in the words of its contract.\<close>

lemma updateVisited_contract:
  "(inBounds (static_cast_int posX) (static_cast_int posY) \<and>
    \<not> visitedCells t (static_cast_int posY) (static_cast_int posX) \<longrightarrow>
      visitedCells (updateVisited t posX posY) =
        setCell (visitedCells t) (static_cast_int posX) (static_cast_int posY) True \<and>
      distinctVisited (updateVisited t posX posY) = distinctVisited t + 1) \<and>
   (\<not> inBounds (static_cast_int posX) (static_cast_int posY) \<or>
    visitedCells t (static_cast_int posY) (static_cast_int posX) \<longrightarrow>
      updateVisited t posX posY = t)"
  by (auto simp: updateVisited_cases)

text \<open>Inside the array the unguarded version does the same.\<close>

lemma updateVisited_v1_agrees:
  "inBounds (static_cast_int posX) (static_cast_int posY) \<Longrightarrow>
   updateVisited_v1 t posX posY = Inr (updateVisited t posX posY)"
  by (simp add: updateVisited_v1_def updateVisited_cases Let_def)

text \<open>
  In \<^verbatim>\<open>raycast_maze-v1.cpp\<close> a position left of the array passes the resolver untouched,
  because the scan range is empty: a frame that moves the player by three cells from the
  spawn position hands such a position to \<^verbatim>\<open>updateVisited\<close>.
\<close>

lemma v1_position_leaves_grid:
  "resolveCircleCollision_v1 g (- 3 / 2, 3 / 2) (1 / 5) = Inr (- 3 / 2, 3 / 2)"
proof -
  have "[max 0 (static_cast_int (std_floor (- 3 / 2 - 1 / 5)))..
         min (MAP_WIDTH - 1) (static_cast_int (std_ceil (- 3 / 2 + 1 / 5)))] = []"
    by (simp add: std_floor_cast std_ceil_cast MAP_WIDTH_def)
  then show ?thesis
    unfolding resolveCircleCollision_v1_def Let_def fst_conv snd_conv
    by (intro forEach_unchanged) simp
qed

text \<open>
  A circle of radius 0.2 at the centre of the cell (247, 247), when that cell is the
  finish: the resolver of v1 pushes it, the resolver of the other two files does not,
  whatever the other cells hold.
\<close>

lemma v1_finish_is_obstacle:
  assumes "g 247 247 = 2"
  shows "resolveCircleCollision_v1 g (495 / 2, 495 / 2) (1 / 5) = Inr (495 / 2, 2473 / 10)"
  using assms
  by (simp add: resolveCircleCollision_v1_def std_floor_cast std_ceil_cast
      MAP_WIDTH_def MAP_HEIGHT_def getCell_def pushOut_def Let_def)

lemma finish_is_passable:
  assumes "g 247 247 = 2"
  shows "resolveCircleCollision g (495 / 2, 495 / 2) (1 / 5) = Inr (495 / 2, 495 / 2)"
  using assms
  by (simp add: resolveCircleCollision_def std_floor_cast std_ceil_cast
      MAP_WIDTH_def MAP_HEIGHT_def getCell_def pushOut_def Let_def)

text \<open>
  What \<^verbatim>\<open>generateMaze\<close> of \<^verbatim>\<open>raycast_maze-v1.cpp\<close> returns: the finish cell is the interior
  cell (247, 247), and every cell of the outer ring is a wall.
\<close>

lemma generateMaze_v1_shape:
  "\<exists>r. generateMaze_v1 g0 gen = Some (setCell (forceBorders r) 247 247 2)"
proof -
  obtain r where "carveLoop (setCell (fillWalls g0) 1 1 0) [(1, 1)] gen 0 = Some r"
    using carveLoop_terminates by blast
  then have "generateMaze_v1 g0 gen = Some (setCell (forceBorders r) 247 247 2)"
    by (simp add: generateMaze_v1_def finishX_def finishY_def MAP_WIDTH_def MAP_HEIGHT_def)
  then show ?thesis by blast
qed

lemma generateMaze_v1_finish:
  "\<exists>m. generateMaze_v1 g0 gen = Some m \<and> m 247 247 = 2 \<and> (\<forall>x y. onBorder x y \<longrightarrow> m y x = 1)"
proof -
  obtain r where r: "generateMaze_v1 g0 gen = Some (setCell (forceBorders r) 247 247 2)"
    using generateMaze_v1_shape by blast
  have "\<forall>x y. onBorder x y \<longrightarrow> setCell (forceBorders r) 247 247 2 y x = 1"
    by (auto simp: setCell_apply forceBorders_apply onBorder_def MAP_WIDTH_def MAP_HEIGHT_def)
  then show ?thesis using r by (simp add: setCell_apply)
qed

section \<open>The claims\<close>

text \<open>
  Claim C1 (maze connectivity): in every grid \<^verbatim>\<open>generateMaze\<close> produces, a flood fill from
  the start cell (1, 1) reaches every empty cell, the passage cell opened next to the
  finish cell included.

  The code does not meet the claim. For every carving, when \<^verbatim>\<open>placeRandomFinish\<close> draws the
  bottom border and the offset 248, the passage cell (248, 248) is empty, the finish cell
  (248, 249) lies below it, and the flood fill does not reach it: the array has an even
  size, so the odd lattice ends at 247 and the row and the column 248 stay walls. The
  passage cell is the only cell that can be cut off (lemma \<open>generated_passage_reached_iff\<close>).
\<close>

theorem C1_isolated_passage:
  "\<exists>m. generateMaze True g0 gen (\<lambda>k. if k = 0 then 1 else 247) = Some m \<and>
       getCell m 248 248 = 0 \<and> getCell m 248 249 = 2 \<and> \<not> flood m 248 248"
  by (rule bottom_finish_isolated) (simp_all add: uniform_int_def MAP_WIDTH_def)

text \<open>
  Claim C2 (border invariant): with finish placement enabled, \<^verbatim>\<open>generateMaze\<close> returns for
  every pair of random sequences, and in its grid one cell of the outer ring is the finish
  cell and every other cell of the ring is a wall.
\<close>

theorem C2_border_invariant:
  "\<exists>g. generateMaze True g0 gen genF = Some g \<and>
     (\<exists>fx fy. onBorder fx fy \<and> g fy fx = 2 \<and>
        (\<forall>x y. onBorder x y \<and> (x, y) \<noteq> (fx, fy) \<longrightarrow> g y x = 1))"
  by (rule border_invariant)

text \<open>
  The invariant at work: with the finish generator that always yields 0 the finish cell is
  (1, 0), and the corners and two more border cells are walls.
\<close>

theorem C2_border_invariant_witness:
  "\<exists>g. generateMaze True (\<lambda>y x. 0) (\<lambda>k. 0) (\<lambda>k. 0) = Some g \<and>
       g 0 1 = 2 \<and> g 0 0 = 1 \<and> g 249 249 = 1 \<and> g 100 0 = 1 \<and> g 0 100 = 1"
proof -
  obtain g fx fy where g: "generateMaze True (\<lambda>y x. 0) (\<lambda>k. 0) (\<lambda>k. 0) = Some g"
    and f: "onBorder fx fy" "g fy fx = 2"
    and o: "\<forall>x y. onBorder x y \<and> (x, y) \<noteq> (fx, fy) \<longrightarrow> g y x = 1"
    using C2_border_invariant [of "\<lambda>y x. 0" "\<lambda>k. 0" "\<lambda>k. 0"] by blast
  obtain r where "generateMaze True (\<lambda>y x. 0) (\<lambda>k. 0) (\<lambda>k. 0) =
      Some (placeRandomFinish (forceBorders r) (\<lambda>k. 0))"
    using generateMaze_finish_shape by blast
  then have "g = placeRandomFinish (forceBorders r) (\<lambda>k. 0)" using g by simp
  then have g01: "g 0 1 = 2"
    by (simp add: placeRandomFinish_def uniform_int_def Let_def setCell_apply)
  have b: "onBorder 1 0" "onBorder 0 0" "onBorder 249 249" "onBorder 0 100" "onBorder 100 0"
    by (simp_all add: onBorder_def inBounds_def MAP_WIDTH_def MAP_HEIGHT_def)
  have "(fx, fy) = (1, 0)" using o b(1) g01 by force
  then have "g 0 0 = 1 \<and> g 249 249 = 1 \<and> g 100 0 = 1 \<and> g 0 100 = 1"
    using o b by auto
  then show ?thesis using g g01 by blast
qed

text \<open>
  Claim C3 (only walls are obstacles): the collision resolver pushes the circle out of
  wall cells only; empty and finish cells are passable, so a circle that overlaps no wall
  cell keeps its position.

  \<^verbatim>\<open>raycast_maze.cpp\<close> and \<^verbatim>\<open>raycast_maze-all-sdl2-only.cpp\<close> meet the claim (lemma
  \<open>resolveCircleCollision_unchanged\<close>). \<^verbatim>\<open>raycast_maze-v1.cpp\<close> does not: its obstacle test
  is \<^verbatim>\<open>getCell(cx, cy) != 0\<close>, and its \<^verbatim>\<open>generateMaze\<close> always marks the cell (247, 247) as
  the finish. A circle of radius 0.2 at the centre of that cell overlaps no other cell;
  the resolver of v1 moves it up by 0.2, the resolver of the other two files leaves it
  where it is.
\<close>

theorem C3_v1_finish_is_obstacle:
  "\<exists>m. generateMaze_v1 g0 gen = Some m \<and> m 247 247 = 2 \<and>
       resolveCircleCollision_v1 m (495 / 2, 495 / 2) (1 / 5) = Inr (495 / 2, 2473 / 10) \<and>
       resolveCircleCollision m (495 / 2, 495 / 2) (1 / 5) = Inr (495 / 2, 495 / 2)"
proof -
  obtain m where m: "generateMaze_v1 g0 gen = Some m" "m 247 247 = 2"
    using generateMaze_v1_finish by blast
  then show ?thesis
    using v1_finish_is_obstacle [of m] finish_is_passable [of m] by blast
qed

text \<open>
  Claim C4 (finish reachability): whatever border and offset \<^verbatim>\<open>placeRandomFinish\<close> draws,
  the grid cell immediately inside the finish cell it places is empty, hence passable.
  The first part is about \<^verbatim>\<open>placeRandomFinish\<close> on any grid; the second is about the grid
  \<^verbatim>\<open>generateMaze\<close> returns, where the finish cell is the one border cell of kind 2.
\<close>

theorem C4_finish_reachability:
  "(\<exists>fx fy. onBorder fx fy \<and> placeRandomFinish g genF fy fx = 2 \<and>
      getCell (placeRandomFinish g genF) (fst (insideOf fx fy)) (snd (insideOf fx fy)) = 0) \<and>
   (\<exists>m. generateMaze True g0 gen genF = Some m \<and>
      (\<exists>fx fy. onBorder fx fy \<and> m fy fx = 2) \<and>
      (\<forall>fx fy. onBorder fx fy \<and> m fy fx = 2 \<longrightarrow>
         getCell m (fst (insideOf fx fy)) (snd (insideOf fx fy)) = 0))"
proof
  show "\<exists>fx fy. onBorder fx fy \<and> placeRandomFinish g genF fy fx = 2 \<and>
      getCell (placeRandomFinish g genF) (fst (insideOf fx fy)) (snd (insideOf fx fy)) = 0"
    using finish_reachability [of g genF] by blast
next
  obtain r where r: "generateMaze True g0 gen genF = Some (placeRandomFinish (forceBorders r) genF)"
    using generateMaze_finish_shape by blast
  let ?m = "placeRandomFinish (forceBorders r) genF"
  obtain fx fy where f: "onBorder fx fy" "?m fy fx = 2"
      "getCell ?m (fst (insideOf fx fy)) (snd (insideOf fx fy)) = 0"
      "\<forall>x y. (x, y) \<noteq> (fx, fy) \<and> (x, y) \<noteq> insideOf fx fy \<longrightarrow> ?m y x = forceBorders r y x"
    using finish_reachability [of "forceBorders r" genF] by blast
  have "\<forall>x y. onBorder x y \<and> ?m y x = 2 \<longrightarrow> (x, y) = (fx, fy)"
  proof (intro allI impI)
    fix x y
    assume a: "onBorder x y \<and> ?m y x = 2"
    show "(x, y) = (fx, fy)"
    proof (rule ccontr)
      assume n: "(x, y) \<noteq> (fx, fy)"
      show False
      proof (cases "(x, y) = insideOf fx fy")
        case True
        then have "getCell ?m x y = 0" using f(3) by (metis fst_conv snd_conv)
        moreover have "getCell ?m x y = ?m y x"
          using a by (auto simp: getCell_def onBorder_def inBounds_def)
        ultimately show False using a by simp
      next
        case False
        then have "?m y x = forceBorders r y x" using f(4) n by blast
        then show False using a by (simp add: forceBorders_apply)
      qed
    qed
  qed
  then have "\<forall>x y. onBorder x y \<and> ?m y x = 2 \<longrightarrow>
      getCell ?m (fst (insideOf x y)) (snd (insideOf x y)) = 0"
    using f(3) by (metis fst_conv snd_conv)
  then show "\<exists>m. generateMaze True g0 gen genF = Some m \<and>
      (\<exists>fx fy. onBorder fx fy \<and> m fy fx = 2) \<and>
      (\<forall>fx fy. onBorder fx fy \<and> m fy fx = 2 \<longrightarrow>
         getCell m (fst (insideOf fx fy)) (snd (insideOf fx fy)) = 0)"
    using r f(1,2) by blast
qed

text \<open>
  With the finish generator that always yields 0 the finish cell is (1, 0) and the cell
  inside it, (1, 1), is empty.
\<close>

theorem C4_finish_reachability_witness:
  "\<exists>m. generateMaze True (\<lambda>y x. 0) (\<lambda>k. 0) (\<lambda>k. 0) = Some m \<and> onBorder 1 0 \<and> m 0 1 = 2 \<and>
       insideOf 1 0 = (1, 1) \<and> getCell m 1 1 = 0"
proof -
  obtain m where m: "generateMaze True (\<lambda>y x. 0) (\<lambda>k. 0) (\<lambda>k. 0) = Some m"
    and i: "\<forall>fx fy. onBorder fx fy \<and> m fy fx = 2 \<longrightarrow>
         getCell m (fst (insideOf fx fy)) (snd (insideOf fx fy)) = 0"
    using C4_finish_reachability [of "\<lambda>y x. 0" "\<lambda>k. 0" "\<lambda>y x. 0" "\<lambda>k. 0"] by blast
  obtain r where "generateMaze True (\<lambda>y x. 0) (\<lambda>k. 0) (\<lambda>k. 0) =
      Some (placeRandomFinish (forceBorders r) (\<lambda>k. 0))"
    using generateMaze_finish_shape by blast
  then have "m = placeRandomFinish (forceBorders r) (\<lambda>k. 0)" using m by simp
  then have m01: "m 0 1 = 2"
    by (simp add: placeRandomFinish_def uniform_int_def Let_def setCell_apply)
  have b: "onBorder 1 0"
    by (simp add: onBorder_def inBounds_def MAP_WIDTH_def MAP_HEIGHT_def)
  have io: "insideOf 1 0 = (1, 1)" by (simp add: insideOf_def)
  have "getCell m (fst (insideOf 1 0)) (snd (insideOf 1 0)) = 0" using i b m01 by blast
  then show ?thesis using m b m01 io by simp
qed

text \<open>
  Claim C5 (recording a visit): a call for an in-bounds cell that is not yet marked marks
  it and adds 1 to the count; a call for an out-of-bounds or an already marked cell changes
  nothing and is no error.

  \<^verbatim>\<open>raycast_maze.cpp\<close> and \<^verbatim>\<open>raycast_maze-all-sdl2-only.cpp\<close> meet the claim (lemma
  \<open>updateVisited_contract\<close>). \<^verbatim>\<open>raycast_maze-v1.cpp\<close> has no bounds test: for the position
  (-1.5, 1.5) it reads \<^verbatim>\<open>visitedCells[1][-1]\<close>, outside the bounds of the row.
\<close>

theorem C5_v1_out_of_bounds:
  "updateVisited_v1 t (- 3 / 2) (3 / 2) = Inl OutOfBounds"
  by (simp add: updateVisited_v1_def static_cast_int_def inBounds_def Let_def)

text \<open>
  Claim C6 (raycasting scenario), as amended: on a grid whose 3 by 3 block at the origin
  has a wall border and an empty centre, for the player at (1.5, 1.5) facing (1, 0), a
  camera plane \<open>(0, planeY)\<close> with \<open>\<bar>planeY\<bar> < 1\<close> and a screen one column wide, the ray of
  column 0 hits the cell (2, 1) with side 0 at the perpendicular distance 1/2. The plane
  matters because the only column has \<open>cameraX = -1\<close>: its ray is \<open>(1, -planeY)\<close>.
\<close>

theorem C6_scenario_narrow_plane:
  assumes "\<forall>x \<in> {0, 1, 2}. \<forall>y \<in> {0, 1, 2}. g y x = (if x = 1 \<and> y = 1 then 0 else 1)"
    and "\<bar>planeY\<bar> < 1"
  shows "castRay g (3 / 2) (3 / 2) 1 0 0 planeY 1 0 =
           Some (Inr \<lparr>hitMapX = 2, hitMapY = 1, hitSide = 0, perpWallDist = Finite (1 / 2)\<rparr>)"
  using assms by (rule scenario_narrow_plane)

text \<open>The scenario with the plane of the windowed mode, (0, 0.66).\<close>

theorem C6_scenario_narrow_plane_witness:
  "castRay grid3 (3 / 2) (3 / 2) 1 0 0 (33 / 50) 1 0 =
     Some (Inr \<lparr>hitMapX = 2, hitMapY = 1, hitSide = 0, perpWallDist = Finite (1 / 2)\<rparr>)"
  by (rule C6_scenario_narrow_plane) (simp_all add: grid3_def)

text \<open>
  The claim as stated names no camera plane. With the plane of the fullscreen mode,
  (0, 1), the ray is (1, -1), both side distances are 1/2, the loop takes its \<^verbatim>\<open>else\<close>
  branch and the ray hits the cell (1, 0) with side 1.
\<close>

theorem C6_fullscreen_plane_counterexample:
  "castRay grid3 (3 / 2) (3 / 2) 1 0 0 1 1 0 =
     Some (Inr \<lparr>hitMapX = 1, hitMapY = 0, hitSide = 1, perpWallDist = Finite (1 / 2)\<rparr>) \<and>
   castRay grid3 (3 / 2) (3 / 2) 1 0 0 1 1 0 \<noteq>
     Some (Inr \<lparr>hitMapX = 2, hitMapY = 1, hitSide = 0, perpWallDist = Finite (1 / 2)\<rparr>)"
  by (simp add: scenario_fullscreen_plane)





text \<open>
  Claim C9 (termination of the generator): \<^verbatim>\<open>generateMaze\<close> returns a grid for every
  sequence of random draws, with or without finish placement and whatever the array held
  before. Every iteration of the carving loop either turns a wall cell into an empty one,
  which nothing turns back, or pops the stack.
\<close>

theorem C9_generateMaze_terminates:
  "\<exists>g. generateMaze finish g0 gen genF = Some g"
  by (rule generateMaze_terminates)

text \<open>
  Claim C10 (termination of the march), as amended: for every grid, facing and camera
  plane, every column \<open>x\<close> of the screen, \<open>0 \<le> x < screenWidth\<close>, and every player position
  whose two coordinates lie strictly between -2147483648 and 2147483647, the marching loop
  stops after finitely many steps without an integer overflow, and the cell it stops in is
  not empty: an out-of-range cell reads as a wall, and every step moves one cell further
  along a fixed direction. So the hit of the column, up to the perpendicular wall distance,
  is always produced.
\<close>

theorem C10_march_terminates:
  assumes "- 2147483648 < posX_player" and "posX_player < 2147483647"
    and "- 2147483648 < posY_player" and "posY_player < 2147483647"
    and "0 \<le> x" and "x < screenWidth"
  shows "\<exists>h. castRay g posX_player posY_player dirX dirY planeX planeY screenWidth x =
               Some (Inr h) \<and>
             getCell g (hitMapX h) (hitMapY h) > 0"
  using assms(1-4) by (rule castRay_terminates)

text \<open>The only column of a one-column screen, from the spawn position of the player.\<close>

theorem C10_march_terminates_witness:
  "\<exists>h. castRay grid3 (3 / 2) (3 / 2) 1 0 0 (33 / 50) 1 0 = Some (Inr h) \<and>
       getCell grid3 (hitMapX h) (hitMapY h) > 0"
  by (rule C10_march_terminates) simp_all

text \<open>
  The claim as stated speaks of every finite player position and concludes that rendering
  a column always produces a result. At the position 3000000000 the cast of line 525 is
  undefined. At 2147483647.5 the start cell is \<^verbatim>\<open>INT_MAX\<close> and the first step of the march
  overflows. And inside the range, a player exactly on the grid line \<open>x = 1\<close> who looks along
  (-1, 0) gets the perpendicular distance 0 for the middle column of a two-column screen,
  and the projected height of line 550 is the cast of an infinity.
\<close>

theorem C10_no_result_counterexample:
  "castRay grid3 3000000000 (3 / 2) 1 0 0 (33 / 50) 1 0 = Some (Inl CastOutOfRange) \<and>
   castRay grid3 (4294967295 / 2) (3 / 2) 1 0 0 (33 / 50) 1 0 = Some (Inl IntOverflow) \<and>
   castRay grid3 1 (3 / 2) (- 1) 0 0 (33 / 50) 2 1 =
     Some (Inr \<lparr>hitMapX = 0, hitMapY = 1, hitSide = 0, perpWallDist = Finite 0\<rparr>) \<and>
   lineHeight 480 (Finite 0) = Inl CastOutOfRange"
  using cast_too_far [of grid3 "3 / 2" 1 0 0 "33 / 50" 1 0] step_overflows zero_distance_hit
    lineHeight_zero_distance
  by simp

end
